theory Spec2Isabelle
  imports Complex_Main "HOL-Library.Char_ord" "HOL-Library.List_Lexorder" "HOL-Library.Multiset"
begin

section \<open>Data model\<close>

text \<open>
  The module \<^verbatim>\<open>nbsynthetic/synthetic.py\<close> works on pandas data frames.  A data frame
  is modelled as the list of its columns, in column order.  A column carries its name,
  whether its declared dtype is \<^verbatim>\<open>CategoricalDtype\<close>, and its cells.  A cell is a
  number (float64 is idealised as \<open>real\<close>), a Python \<^verbatim>\<open>str\<close>, or a missing value
  (\<^verbatim>\<open>NaN\<close>/\<^verbatim>\<open>None\<close>, what \<^verbatim>\<open>pd.isnull\<close> reports).
\<close>

datatype cell = is_Num: Num real | is_Str: Str string | is_Null: Null

record column =
  cname :: string
  is_categorical :: bool
  cells :: "cell list"

type_synonym dataframe = "column list"

text \<open>
  Exceptions are values: every function that can raise returns \<open>error + 'a\<close>, with
  \<open>Inl\<close> for the exception.  \<open>NotFittedError\<close> is scikit-learn's exception for a
  transformer used before \<^verbatim>\<open>fit\<close>.
\<close>

datatype error =
  ValueError string | IndexError | KeyError string | TypeError | AttributeError | NotFittedError

definition bind_res :: "error + 'a \<Rightarrow> ('a \<Rightarrow> error + 'b) \<Rightarrow> error + 'b" where
  "bind_res m f = (case m of Inl e \<Rightarrow> Inl e | Inr x \<Rightarrow> f x)"

text \<open>A \<^verbatim>\<open>for x in xs:\<close> loop over a state, left at the first exception.\<close>

fun for_each :: "'a list \<Rightarrow> ('a \<Rightarrow> 's \<Rightarrow> error + 's) \<Rightarrow> 's \<Rightarrow> error + 's" where
  "for_each [] body s = Inr s"
| "for_each (x # xs) body s = bind_res (body x s) (for_each xs body)"

definition columns :: "dataframe \<Rightarrow> string list" where
  "columns df = map cname df"

text \<open>
  \<^verbatim>\<open>len(df)\<close>: the number of rows, read off the first column (a frame without
  columns is taken to have no rows).
\<close>

definition nrows :: "dataframe \<Rightarrow> nat" where
  "nrows df = (case df of [] \<Rightarrow> 0 | c # _ \<Rightarrow> length (cells c))"

section \<open>The pandas and numpy operations the module calls\<close>

text \<open>
  \<^verbatim>\<open>df[c]\<close> reads the column named \<open>c\<close> (\<^verbatim>\<open>KeyError\<close> when there is none) and
  \<^verbatim>\<open>df[c] = values\<close> replaces its cells and dtype, keeping its position (a new name
  is appended).  Column names are taken to be distinct, as the module's use of
  \<^verbatim>\<open>df[c]\<close> as one column presupposes; every array the module assigns has the
  length of the column it replaces.
\<close>

definition getitem :: "dataframe \<Rightarrow> string \<Rightarrow> error + column" where
  "getitem df c =
     (case find (\<lambda>col. cname col = c) df of
        None \<Rightarrow> Inl (KeyError c)
      | Some col \<Rightarrow> Inr col)"

definition setitem :: "dataframe \<Rightarrow> string \<Rightarrow> bool \<Rightarrow> cell list \<Rightarrow> dataframe" where
  "setitem df c categorical values =
     (if c \<in> set (columns df)
      then map (\<lambda>col. if cname col = c
                       then col\<lparr>is_categorical := categorical, cells := values\<rparr>
                       else col) df
      else df @ [\<lparr>cname = c, is_categorical = categorical, cells = values\<rparr>])"

text \<open>
  \<^verbatim>\<open>np.array(scaled_X)\<close>: the table as a list of rows.  \<^verbatim>\<open>pd.DataFrame(data,
  columns=cols)\<close>: the rows as float columns named \<open>cols\<close>; a row of another width is
  a \<^verbatim>\<open>ValueError\<close> (shape mismatch).
\<close>

definition np_array :: "dataframe \<Rightarrow> cell list list" where
  "np_array df = map (\<lambda>i. map (\<lambda>col. cells col ! i) df) [0..<nrows df]"

definition DataFrame :: "cell list list \<Rightarrow> string list \<Rightarrow> error + dataframe" where
  "DataFrame data cols =
     (if list_ex (\<lambda>row. length row \<noteq> length cols) data
      then Inl (ValueError ''Shape of passed values does not match the columns'')
      else Inr (map (\<lambda>j. \<lparr>cname = cols ! j, is_categorical = False,
                             cells = map (\<lambda>row. row ! j) data\<rparr>) [0..<length cols]))"

text \<open>
  Conversion of a column to a float array, as scikit-learn's input validation and numpy
  do it.  A \<open>Str\<close> cell is free text, which cannot be converted (a string that
  spells a number is not distinguished from it).  Arithmetic on \<^verbatim>\<open>NaN\<close>
  is not modelled: \<^verbatim>\<open>synthetic_data\<close> rejects missing values before any numeric
  routine runs, and here a missing value that reaches one is reported as an error.
\<close>

fun num_values :: "cell list \<Rightarrow> real list" where
  "num_values [] = []"
| "num_values (Num r # cs) = r # num_values cs"
| "num_values (_ # cs) = num_values cs"

definition as_floats :: "cell list \<Rightarrow> error + real list" where
  "as_floats X =
     (if list_ex is_Str X then Inl (ValueError ''could not convert string to float'')
      else if list_ex is_Null X then Inl (ValueError ''Input contains NaN'')
      else Inr (num_values X))"

definition check_array :: "cell list \<Rightarrow> error + real list" where
  "check_array X =
     bind_res (as_floats X) (\<lambda>xs.
       if xs = [] then Inl (ValueError ''Found array with 0 sample(s)'') else Inr xs)"

definition np_min :: "cell list \<Rightarrow> error + real" where
  "np_min X =
     bind_res (as_floats X) (\<lambda>xs.
       if xs = [] then Inl (ValueError ''zero-size array to reduction operation'')
       else Inr (Min (set xs)))"

definition np_max :: "cell list \<Rightarrow> error + real" where
  "np_max X =
     bind_res (as_floats X) (\<lambda>xs.
       if xs = [] then Inl (ValueError ''zero-size array to reduction operation'')
       else Inr (Max (set xs)))"

text \<open>
  \<^verbatim>\<open>np.unique\<close>: the distinct values, sorted (numbers by value, strings
  lexicographically); numbers and strings cannot be compared with each other.
\<close>

fun str_values :: "cell list \<Rightarrow> string list" where
  "str_values [] = []"
| "str_values (Str s # cs) = s # str_values cs"
| "str_values (_ # cs) = str_values cs"

definition np_unique :: "cell list \<Rightarrow> error + cell list" where
  "np_unique X =
     (if list_all is_Num X then Inr (map Num (sort (remdups (num_values X))))
      else if list_all is_Str X then Inr (map Str (sort (remdups (str_values X))))
      else Inl TypeError)"

text \<open>Indexing an array: \<^verbatim>\<open>a[i]\<close> raises \<^verbatim>\<open>IndexError\<close> out of range.\<close>

definition index :: "'a list \<Rightarrow> nat \<Rightarrow> error + 'a" where
  "index a i = (if i < length a then Inr (a ! i) else Inl IndexError)"

text \<open>
  \<^verbatim>\<open>Series.replace(to_replace, value, inplace=True)\<close> with two lists of equal
  length: every cell equal to \<open>to_replace[i]\<close> becomes \<open>value[i]\<close>, the other
  cells are kept.  The module calls it on \<^verbatim>\<open>newdf[cat_c]\<close> and relies on the frame's
  column being changed in place.
\<close>

definition replace :: "cell list \<Rightarrow> cell list \<Rightarrow> cell list \<Rightarrow> cell list" where
  "replace to_replace value X =
     map (\<lambda>v. case map_of (zip to_replace value) v of None \<Rightarrow> v | Some w \<Rightarrow> w) X"

section \<open>Column classifier\<close>

text \<open>
  \<^verbatim>\<open>selector(dtype_include=CategoricalDtype)\<close> returns the names of the columns whose
  dtype is categorical, in column order, and \<^verbatim>\<open>selector(dtype_exclude=CategoricalDtype)\<close>
  the names of all the others (scikit-learn's \<^verbatim>\<open>make_column_selector\<close> over pandas'
  \<^verbatim>\<open>select_dtypes\<close>).
\<close>

definition selector_include :: "dataframe \<Rightarrow> string list" where
  "selector_include df = map cname (filter is_categorical df)"

definition selector_exclude :: "dataframe \<Rightarrow> string list" where
  "selector_exclude df = map cname (filter (\<lambda>c. \<not> is_categorical c) df)"

definition columns_type :: "dataframe \<Rightarrow> string list \<times> string list" where
  "columns_type df =
     (let numerical_columns = selector_exclude df;
          categorical_columns = selector_include df
      in (numerical_columns, categorical_columns))"

section \<open>The scikit-learn transformers the module calls\<close>

text \<open>
  \<^verbatim>\<open>MinMaxScaler(feature_range=(lo, hi), clip=True)\<close>, the only configuration used.
  Fitting on a column learns the attributes \<^verbatim>\<open>scale_\<close> and \<^verbatim>\<open>min_\<close> from the column's minimum and
  maximum (a zero data range counts as 1; scikit-learn's threshold of a few machine
  epsilons is, over the reals, zero); \<^verbatim>\<open>transform\<close> is \<^verbatim>\<open>x * scale_ + min_\<close>
  clipped to the feature range; \<^verbatim>\<open>inverse_transform\<close> is \<^verbatim>\<open>(x - min_) / scale_\<close>,
  not clipped.  An unfitted scaler is \<open>None\<close>.
\<close>

record MinMaxScaler =
  feature_range :: "real \<times> real"
  scale_attr :: real
  min_attr :: real

definition handle_zeros_in_scale :: "real \<Rightarrow> real" where
  "handle_zeros_in_scale s = (if s = 0 then 1 else s)"

definition np_clip :: "real \<Rightarrow> real \<Rightarrow> real \<Rightarrow> real" where
  "np_clip x a_min a_max = min a_max (max x a_min)"

definition MinMaxScaler_fit :: "real \<times> real \<Rightarrow> cell list \<Rightarrow> error + MinMaxScaler" where
  "MinMaxScaler_fit fr X =
     (if fst fr \<ge> snd fr
      then Inl (ValueError ''Minimum of desired feature range must be smaller than maximum.'')
      else bind_res (check_array X) (\<lambda>xs.
        let data_min = Min (set xs);
            data_max = Max (set xs);
            data_range = data_max - data_min;
            sc = (snd fr - fst fr) / handle_zeros_in_scale data_range
        in Inr \<lparr>feature_range = fr, scale_attr = sc, min_attr = fst fr - data_min * sc\<rparr>))"

definition MinMaxScaler_transform :: "MinMaxScaler \<Rightarrow> cell list \<Rightarrow> error + real list" where
  "MinMaxScaler_transform s X =
     bind_res (check_array X) (\<lambda>xs.
       Inr (map (\<lambda>x. np_clip (x * scale_attr s + min_attr s)
                          (fst (feature_range s)) (snd (feature_range s))) xs))"

definition MinMaxScaler_fit_transform ::
  "real \<times> real \<Rightarrow> cell list \<Rightarrow> error + (MinMaxScaler \<times> real list)" where
  "MinMaxScaler_fit_transform fr X =
     bind_res (MinMaxScaler_fit fr X) (\<lambda>s.
     bind_res (MinMaxScaler_transform s X) (\<lambda>ys. Inr (s, ys)))"

definition MinMaxScaler_inverse_transform ::
  "MinMaxScaler option \<Rightarrow> cell list \<Rightarrow> error + real list" where
  "MinMaxScaler_inverse_transform so X =
     (case so of
        None \<Rightarrow> Inl NotFittedError
      | Some s \<Rightarrow> bind_res (check_array X) (\<lambda>xs.
          Inr (map (\<lambda>x. (x - min_attr s) / scale_attr s) xs)))"

text \<open>
  \<^verbatim>\<open>KBinsDiscretizer(n_bins=k, encode='ordinal', strategy='uniform')\<close>: the bin edges
  are \<open>k + 1\<close> equally spaced points from the column's minimum to its maximum, and a
  value's code is the number of inner edges at or below it (bin \<open>i\<close> is
  \<open>[edge i, edge (i + 1))\<close>, the last bin closed).  A constant column has the single
  bin 0.
\<close>

definition linspace :: "real \<Rightarrow> real \<Rightarrow> nat \<Rightarrow> real list" where
  "linspace start stop num =
     map (\<lambda>i. start + real i * ((stop - start) / real (num - 1))) [0..<num]"

definition searchsorted_right :: "real list \<Rightarrow> real \<Rightarrow> nat" where
  "searchsorted_right a v = length (filter (\<lambda>e. e \<le> v) a)"

definition KBinsDiscretizer_fit_transform :: "nat \<Rightarrow> cell list \<Rightarrow> error + nat list" where
  "KBinsDiscretizer_fit_transform n_bins X =
     bind_res (check_array X) (\<lambda>xs.
       if n_bins < 2 then Inl (ValueError ''n_bins must be at least 2'')
       else
         let col_min = Min (set xs);
             col_max = Max (set xs)
         in if col_min = col_max then Inr (map (\<lambda>x. 0) xs)
            else
              let bin_edges = linspace col_min col_max (n_bins + 1)
              in Inr (map (searchsorted_right (butlast (tl bin_edges))) xs))"

section \<open>External collaborators\<close>

text \<open>
  The generator class \<^verbatim>\<open>GAN\<close> is an argument of \<^verbatim>\<open>synthetic_data\<close>, and the
  quantile transformer is scikit-learn's; both are parameters of the model.
  \<open>gan_train i args\<close> is what constructing the \<open>i\<close>-th generator of a run with
  \<open>args\<close> and training it returns: generator loss, discriminator loss and the trained
  generator (a fresh training run need not repeat an earlier one, hence \<open>i\<close>).
  \<open>create_fake_samples g n\<close> is the feature matrix of \<open>n\<close> samples drawn from the
  trained generator (the second array it returns is not used by the module).
  The quantile transformer is fitted on a column and then maps values one by one.
\<close>

record train_args =
  arg_number_of_features :: nat
  arg_learning_rate :: real
  arg_dropout :: real
  arg_scaled_data :: "cell list list"
  arg_epochs :: nat
  arg_batch_size :: nat

record ('g, 'q) env =
  gan_train :: "nat \<Rightarrow> train_args \<Rightarrow> real \<times> real \<times> 'g"
  create_fake_samples :: "'g \<Rightarrow> nat \<Rightarrow> real list list"
  qt_fit :: "nat \<Rightarrow> real list \<Rightarrow> 'q"
  qt_transform :: "'q \<Rightarrow> real \<Rightarrow> real"
  qt_inverse_transform :: "'q \<Rightarrow> real \<Rightarrow> real"

text \<open>
  The numerical scaler:
  \<^verbatim>\<open>make_pipeline(QuantileTransformer(n_quantiles, 'uniform'), MinMaxScaler((-1, 1), clip=True))\<close>.
\<close>

definition numerical_fit_transform ::
  "('g, 'q) env \<Rightarrow> nat \<Rightarrow> cell list \<Rightarrow> error + (('q \<times> MinMaxScaler) \<times> real list)" where
  "numerical_fit_transform E n_quantiles X =
     (if n_quantiles = 0 then Inl (ValueError ''n_quantiles must be at least 1'')
      else bind_res (check_array X) (\<lambda>xs.
        let q = qt_fit E n_quantiles xs;
            ys = map (qt_transform E q) xs
        in bind_res (MinMaxScaler_fit_transform (- 1, 1) (map Num ys)) (\<lambda>(s, zs).
             Inr ((q, s), zs))))"

definition numerical_inverse_transform ::
  "('g, 'q) env \<Rightarrow> ('q \<times> MinMaxScaler) option \<Rightarrow> cell list \<Rightarrow> error + real list" where
  "numerical_inverse_transform E so X =
     (case so of
        None \<Rightarrow> Inl NotFittedError
      | Some (q, s) \<Rightarrow>
          bind_res (MinMaxScaler_inverse_transform (Some s) X) (\<lambda>ys.
            Inr (map (qt_inverse_transform E q) ys)))"

section \<open>Forward transformer\<close>

text \<open>
  \<^verbatim>\<open>data_transformation\<close> scales a copy of the frame column by column, with one
  categorical scaler and one numerical scaler that are refitted for every column: the
  loops carry the frame and the scaler as fitted last.  The bodies of its two loops:
\<close>

definition scale_categorical ::
  "dataframe \<Rightarrow> string \<Rightarrow> dataframe \<times> MinMaxScaler option \<Rightarrow>
     error + (dataframe \<times> MinMaxScaler option)" where
  "scale_categorical df cat_c =
     (\<lambda>(scaled_X, categorical_scaler).
        bind_res (getitem df cat_c) (\<lambda>col.
        bind_res (MinMaxScaler_fit_transform (- 1, 1) (cells col)) (\<lambda>(s, ys).
          Inr (setitem scaled_X cat_c False (map Num ys), Some s))))"

definition scale_numerical ::
  "('g, 'q) env \<Rightarrow> nat \<Rightarrow> dataframe \<Rightarrow> string \<Rightarrow>
     dataframe \<times> ('q \<times> MinMaxScaler) option \<Rightarrow>
     error + (dataframe \<times> ('q \<times> MinMaxScaler) option)" where
  "scale_numerical E n_quantiles df num_c =
     (\<lambda>(scaled_X, numerical_scaler).
        bind_res (getitem df num_c) (\<lambda>col.
        bind_res (numerical_fit_transform E n_quantiles (cells col)) (\<lambda>(s, ys).
          Inr (setitem scaled_X num_c False (map Num ys), Some s))))"

definition data_transformation ::
  "('g, 'q) env \<Rightarrow> dataframe \<Rightarrow> string list \<Rightarrow> string list \<Rightarrow>
     error + (cell list list \<times> MinMaxScaler option \<times> ('q \<times> MinMaxScaler) option)" where
  "data_transformation E df numerical_columns categorical_columns =
     (let n_quantiles = (if nrows df > 99 then 100 else nrows df);
          scaled_X = df
      in
      bind_res (for_each categorical_columns (scale_categorical df) (scaled_X, None))
        (\<lambda>(scaled_X, categorical_scaler).
      bind_res (for_each numerical_columns (scale_numerical E n_quantiles df) (scaled_X, None))
        (\<lambda>(scaled_X, numerical_scaler).
      Inr (np_array scaled_X, categorical_scaler, numerical_scaler))))"

section \<open>Inverse transformer\<close>

text \<open>
  The bodies of the three loops of \<^verbatim>\<open>generate_data\<close>.  The first inverts the
  categorical scaler on a generated column, bins the result into as many bins as the
  input column has distinct values and casts the codes to a category; it skips a column
  with at most one distinct value.  The second inverts the numerical scaler.  The third
  replaces, in a column whose input has exactly two distinct values, the first two
  distinct generated codes by the two distinct input values.
\<close>

definition inverse_categorical ::
  "dataframe \<Rightarrow> MinMaxScaler option \<Rightarrow> string \<Rightarrow> dataframe \<Rightarrow> error + dataframe" where
  "inverse_categorical df categorical_scaler cat_c newdf =
     bind_res (getitem df cat_c) (\<lambda>dcol.
     bind_res (np_unique (cells dcol)) (\<lambda>u.
       if length u > 1 then
         bind_res (getitem newdf cat_c) (\<lambda>ncol.
         bind_res (MinMaxScaler_inverse_transform categorical_scaler (cells ncol)) (\<lambda>ys.
         bind_res (KBinsDiscretizer_fit_transform (length u) (map Num ys)) (\<lambda>codes.
           Inr (setitem newdf cat_c True (map (\<lambda>k. Num (real k)) codes)))))
       else Inr newdf))"

definition inverse_numerical ::
  "('g, 'q) env \<Rightarrow> ('q \<times> MinMaxScaler) option \<Rightarrow> string \<Rightarrow> dataframe \<Rightarrow> error + dataframe" where
  "inverse_numerical E numerical_scaler num_c newdf =
     bind_res (getitem newdf num_c) (\<lambda>ncol.
     bind_res (numerical_inverse_transform E numerical_scaler (cells ncol)) (\<lambda>ys.
       Inr (setitem newdf num_c False (map Num ys))))"

definition remap_binary :: "dataframe \<Rightarrow> string \<Rightarrow> dataframe \<Rightarrow> error + dataframe" where
  "remap_binary df cat_c newdf =
     bind_res (getitem df cat_c) (\<lambda>dcol.
     bind_res (np_unique (cells dcol)) (\<lambda>u.
       if length u = 2 then
         bind_res (getitem newdf cat_c) (\<lambda>ncol.
         bind_res (np_unique (cells ncol)) (\<lambda>nu.
         bind_res (index nu 0) (\<lambda>n0.
         bind_res (index nu 1) (\<lambda>n1.
         bind_res (index u 0) (\<lambda>u0.
         bind_res (index u 1) (\<lambda>u1.
           Inr (setitem newdf cat_c (is_categorical ncol)
                  (replace [n0, n1] [u0, u1] (cells ncol)))))))))
       else Inr newdf))"

definition generate_data ::
  "('g, 'q) env \<Rightarrow> dataframe \<Rightarrow> cell list list \<Rightarrow> string list \<Rightarrow> string list \<Rightarrow>
     MinMaxScaler option \<Rightarrow> ('q \<times> MinMaxScaler) option \<Rightarrow> error + dataframe" where
  "generate_data E df x_synthetic categorical_columns numerical_columns
       categorical_scaler numerical_scaler =
     bind_res (DataFrame x_synthetic (columns df)) (\<lambda>newdf.
     bind_res (for_each categorical_columns (inverse_categorical df categorical_scaler) newdf)
       (\<lambda>newdf.
     bind_res (for_each numerical_columns (inverse_numerical E numerical_scaler) newdf)
       (\<lambda>newdf.
     for_each categorical_columns (remap_binary df) newdf)))"

section \<open>Pipeline orchestrator\<close>

text \<open>
  The nested function \<^verbatim>\<open>train_gan\<close>; it reads \<^verbatim>\<open>epochs\<close> and \<^verbatim>\<open>batch_size\<close>
  from the enclosing call, here two more arguments.  Its checks that a row has a
  \<^verbatim>\<open>shape\<close> of at least one dimension hold of every row of a matrix and are left
  out; the checks for an empty matrix and for rows of unequal length are kept.  The
  generators constructed so far
  are recorded, in order, in a trace: each entry holds the arguments of one
  construction and training.
\<close>

definition train_gan ::
  "('g, 'q) env \<Rightarrow> nat \<Rightarrow> nat \<Rightarrow> cell list list \<Rightarrow> nat \<Rightarrow> real \<Rightarrow> real \<Rightarrow>
     train_args list \<Rightarrow> (error + (real \<times> real \<times> 'g)) \<times> train_args list" where
  "train_gan E epochs batch_size scaled_X n_features initial_lr dropout trace =
     (let arrays = scaled_X in
      if arrays = [] then (Inl (ValueError ''`arrays` must not be empty.''), trace)
      else
        let data_length = length (hd arrays) in
        if list_ex (\<lambda>a. length a \<noteq> data_length) (tl arrays)
        then (Inl (ValueError ''`arrays` must have the same data length.''), trace)
        else
          let args = \<lparr>arg_number_of_features = n_features,
                       arg_learning_rate = initial_lr, arg_dropout = dropout,
                       arg_scaled_data = scaled_X, arg_epochs = epochs,
                       arg_batch_size = batch_size\<rparr>
          in (Inr (gan_train E (length trace) args), trace @ [args]))"

text \<open>
  The two guards of \<^verbatim>\<open>synthetic_data\<close>.  \<^verbatim>\<open>sum(pd.isnull(df).sum())\<close> counts the
  missing cells of all columns.  The string guard looks, column by column, at the value
  of the first row only: \<^verbatim>\<open>isinstance(df[c].dtype, object)\<close> holds of every dtype, but
  \<^verbatim>\<open>df[c]\<close> is a sub-frame, which has no \<^verbatim>\<open>dtype\<close>, when the name \<open>c\<close> is
  repeated; \<^verbatim>\<open>df.iloc[0]\<close> is out of bounds when there is no row.
\<close>

definition isnull_sum :: "dataframe \<Rightarrow> nat list" where
  "isnull_sum df = map (\<lambda>col. length (filter is_Null (cells col))) df"

definition nan_message :: string where
  "nan_message =
     ''There are nan values in your dataset. You have to remove or replace them.''"

definition string_message :: "string \<Rightarrow> string" where
  "string_message c =
     ''Column '' @ [CHR 0x27] @ c @ [CHR 0x27] @ '' contains strings. We suggest to encode it. ''"

definition first_cell_is_str :: "column \<Rightarrow> bool" where
  "first_cell_is_str col = (case cells col of [] \<Rightarrow> False | v # _ \<Rightarrow> is_Str v)"

definition iloc0_is_str :: "dataframe \<Rightarrow> string \<Rightarrow> bool" where
  "iloc0_is_str df c =
     (case filter (\<lambda>col. cname col = c) df of
        [col] \<Rightarrow> first_cell_is_str col
      | _ \<Rightarrow> False)"

definition string_guard :: "dataframe \<Rightarrow> error + unit" where
  "string_guard df =
     for_each (columns df)
       (\<lambda>c _. if length (filter (\<lambda>col. cname col = c) df) \<noteq> 1 then Inl AttributeError
              else if nrows df = 0 then Inl IndexError
              else if iloc0_is_str df c then Inl (ValueError (string_message c))
              else Inr ())
       ()"

text \<open>
  The last loop of \<^verbatim>\<open>synthetic_data\<close>: every numerical column of the generated frame
  is refitted with a fresh \<^verbatim>\<open>MinMaxScaler\<close> whose feature range is the minimum and
  maximum of the input column.
\<close>

definition rescale :: "dataframe \<Rightarrow> string \<Rightarrow> dataframe \<Rightarrow> error + dataframe" where
  "rescale df c newdf =
     bind_res (getitem df c) (\<lambda>dcol.
     bind_res (np_min (cells dcol)) (\<lambda>lo.
     bind_res (np_max (cells dcol)) (\<lambda>hi.
     bind_res (getitem newdf c) (\<lambda>ncol.
     bind_res (MinMaxScaler_fit_transform (lo, hi) (cells ncol)) (\<lambda>(scaler, ys).
       Inr (setitem newdf c False (map Num ys)))))))"

definition final_rescale :: "dataframe \<Rightarrow> string list \<Rightarrow> dataframe \<Rightarrow> error + dataframe" where
  "final_rescale df numerical_columns newdf = for_each numerical_columns (rescale df) newdf"

text \<open>
  \<^verbatim>\<open>synthetic_data\<close> returns its result (the synthetic frame or the exception) together
  with the trace of the generators it constructed and trained; \<open>bind_trace\<close> sequences
  two steps of it, an exception ending the run with the trace reached so far.
\<close>

definition bind_trace ::
  "(error + 'a) \<times> train_args list \<Rightarrow> ('a \<Rightarrow> train_args list \<Rightarrow> (error + 'b) \<times> train_args list)
     \<Rightarrow> (error + 'b) \<times> train_args list" where
  "bind_trace m f =
     (case m of (Inl e, trace) \<Rightarrow> (Inl e, trace) | (Inr x, trace) \<Rightarrow> f x trace)"

definition synthetic_data ::
  "('g, 'q) env \<Rightarrow> dataframe \<Rightarrow> nat \<Rightarrow> real \<Rightarrow> real \<Rightarrow> nat \<Rightarrow> nat \<Rightarrow>
     (error + dataframe) \<times> train_args list" where
  "synthetic_data E df samples initial_lr dropout batch_size epochs =
     (if sum_list (isnull_sum df) > 0 then (Inl (ValueError nan_message), [])
      else
        bind_trace (string_guard df, []) (\<lambda>_ trace.
        let n_features = length (columns df);
            (numerical_columns, categorical_columns) = columns_type df
        in
        bind_trace (data_transformation E df numerical_columns categorical_columns, trace)
          (\<lambda>(scaled_X, categorical_scaler, numerical_scaler) trace.
        bind_trace (train_gan E epochs batch_size scaled_X n_features initial_lr dropout trace)
          (\<lambda>(G_loss, D_loss, gan) trace.
        bind_trace
          (if G_loss > 1
           then train_gan E epochs batch_size scaled_X n_features (initial_lr / 10)
                  dropout trace
           else if G_loss > 1
           then train_gan E epochs batch_size scaled_X n_features (initial_lr / 100)
                  dropout trace
           else (Inr (G_loss, D_loss, gan), trace))
          (\<lambda>(G_loss, D_loss, gan) trace.
        let x_synthetic = map (map Num) (create_fake_samples E gan samples) in
        bind_trace
          (generate_data E df x_synthetic categorical_columns numerical_columns
             categorical_scaler numerical_scaler, trace)
          (\<lambda>newdf trace.
        bind_trace (final_rescale df numerical_columns newdf, trace)
          (\<lambda>newdf trace. (Inr newdf, trace))))))))"

section \<open>Valid datasets\<close>

text \<open>
  The datasets the pipeline is meant for: distinct column names, and every column as
  long as the frame, not empty, and holding numbers only (no missing value, no string).
\<close>

definition numeric_column :: "column \<Rightarrow> bool" where
  "numeric_column col = (cells col \<noteq> [] \<and> list_all is_Num (cells col))"

definition valid_dataset :: "dataframe \<Rightarrow> bool" where
  "valid_dataset df =
     (distinct (columns df) \<and>
      list_all (\<lambda>col. numeric_column col \<and> length (cells col) = nrows df) df)"

section \<open>Example inputs\<close>

text \<open>
  A generator whose training always ends with generator loss 2 and whose samples
  alternate, and an identity quantile transformer; a frame with one numerical and one
  binary categorical column; and three frames that the guards reject or miss.
\<close>

definition E_ex :: "(unit, unit) env" where
  "E_ex = \<lparr>gan_train = (\<lambda>i args. (2, 1 / 2, ())),
           create_fake_samples = (\<lambda>g n. map (\<lambda>i. [real i, (- 1) ^ i]) [0..<n]),
           qt_fit = (\<lambda>n xs. ()),
           qt_transform = (\<lambda>q x. x),
           qt_inverse_transform = (\<lambda>q x. x)\<rparr>"

definition df_ex :: dataframe where
  "df_ex = [\<lparr>cname = ''age'', is_categorical = False, cells = [Num 0, Num 1, Num 4]\<rparr>,
            \<lparr>cname = ''sex'', is_categorical = True, cells = [Num 5, Num 3, Num 5]\<rparr>]"

definition df_missing :: dataframe where
  "df_missing =
     [\<lparr>cname = ''age'', is_categorical = False, cells = [Num 0, Null]\<rparr>,
      \<lparr>cname = ''city'', is_categorical = False, cells = [Str ''Oslo'', Str ''Rome'']\<rparr>]"

definition df_late_string :: dataframe where
  "df_late_string =
     [\<lparr>cname = ''city'', is_categorical = False, cells = [Num 1, Str ''Rome'']\<rparr>]"

definition df_strings :: dataframe where
  "df_strings =
     [\<lparr>cname = ''age'', is_categorical = False, cells = [Num 0, Num 1]\<rparr>,
      \<lparr>cname = ''city'', is_categorical = False, cells = [Str ''Oslo'', Str ''Rome'']\<rparr>,
      \<lparr>cname = ''name'', is_categorical = False, cells = [Str ''Ann'', Str ''Bob'']\<rparr>]"


definition cs_ex :: "MinMaxScaler option" where
  "cs_ex = Some \<lparr>feature_range = (- 1, 1), scale_attr = 1, min_attr = - 4\<rparr>"

definition ns_ex :: "(unit \<times> MinMaxScaler) option" where
  "ns_ex = Some ((), \<lparr>feature_range = (- 1, 1), scale_attr = 1 / 2, min_attr = - 1\<rparr>)"

definition out_ex :: dataframe where
  "out_ex = [\<lparr>cname = ''age'', is_categorical = False, cells = [Num 0, Num 4]\<rparr>,
             \<lparr>cname = ''sex'', is_categorical = True, cells = [Num 5, Num 3]\<rparr>]"

text \<open>
  A frame with a third, single-valued categorical column, three generated rows for it
  and the scalers fitted on it.
\<close>

definition df_const :: dataframe where
  "df_const =
     [\<lparr>cname = ''age'', is_categorical = False, cells = [Num 0, Num 1, Num 4]\<rparr>,
      \<lparr>cname = ''sex'', is_categorical = True, cells = [Num 5, Num 3, Num 5]\<rparr>,
      \<lparr>cname = ''land'', is_categorical = True, cells = [Num 7, Num 7, Num 7]\<rparr>]"

definition x_const :: "cell list list" where
  "x_const = [[Num 0, Num 1, Num 9], [Num 1, Num (- 1), Num 8]]"

definition cs_const :: "MinMaxScaler option" where
  "cs_const = Some \<lparr>feature_range = (- 1, 1), scale_attr = 2, min_attr = - 15\<rparr>"



section \<open>Basic facts about the error plumbing\<close>

lemma bind_res_Inl [simp]: "bind_res (Inl e) f = Inl e"
  by (simp add: bind_res_def)

lemma bind_res_Inr [simp]: "bind_res (Inr x) f = f x"
  by (simp add: bind_res_def)

lemma bind_res_eq_Inr: "bind_res m f = Inr y \<longleftrightarrow> (\<exists>x. m = Inr x \<and> f x = Inr y)"
  by (cases m) simp_all

lemma for_each_append:
  "for_each (xs @ ys) body s = bind_res (for_each xs body s) (for_each ys body)"
proof (induction xs arbitrary: s)
  case Nil
  show ?case by simp
next
  case (Cons x xs)
  show ?case
  proof (cases "body x s")
    case (Inl e)
    then show ?thesis by simp
  next
    case (Inr s1)
    then show ?thesis using Cons.IH [of s1] by simp
  qed
qed

lemma for_each_invariant:
  assumes run: "for_each xs body s = Inr s'"
    and start: "P s"
    and step: "\<And>x t t'. x \<in> set xs \<Longrightarrow> P t \<Longrightarrow> body x t = Inr t' \<Longrightarrow> P t'"
  shows "P s'"
  using run start step
proof (induction xs arbitrary: s)
  case Nil
  then show ?case by simp
next
  case (Cons x xs)
  from Cons.prems(1) obtain s1 where b: "body x s = Inr s1" and r: "for_each xs body s1 = Inr s'"
    by (auto simp: bind_res_eq_Inr)
  have "P s1" using Cons.prems(2,3) b by auto
  then show ?case using Cons.IH [OF r] Cons.prems(3) by auto
qed

lemma for_each_post:
  assumes run: "for_each xs body s = Inr s'"
    and mem: "c \<in> set xs"
    and establish: "\<And>t t'. body c t = Inr t' \<Longrightarrow> Q t'"
    and preserve: "\<And>x t t'. x \<noteq> c \<Longrightarrow> Q t \<Longrightarrow> body x t = Inr t' \<Longrightarrow> Q t'"
  shows "Q s'"
proof -
  from mem obtain ys zs where xs: "xs = ys @ c # zs"
    by (auto dest: split_list)
  from run obtain s1 s2 where "for_each ys body s = Inr s1" and b: "body c s1 = Inr s2"
    and r: "for_each zs body s2 = Inr s'"
    unfolding xs by (auto simp: for_each_append bind_res_eq_Inr)
  have "Q s2" using b by (rule establish)
  with r show ?thesis
  proof (rule for_each_invariant)
    fix x t t'
    assume "Q t" "body x t = Inr t'"
    then show "Q t'"
      using establish [of t t'] preserve [of x t t'] by (cases "x = c") auto
  qed
qed

lemma for_each_post_distinct:
  assumes run: "for_each xs body s = Inr s'"
    and mem: "c \<in> set xs" and dist: "distinct xs"
    and start: "P s"
    and before: "\<And>x t t'. x \<noteq> c \<Longrightarrow> P t \<Longrightarrow> body x t = Inr t' \<Longrightarrow> P t'"
    and establish: "\<And>t t'. P t \<Longrightarrow> body c t = Inr t' \<Longrightarrow> Q t'"
    and after: "\<And>x t t'. x \<noteq> c \<Longrightarrow> Q t \<Longrightarrow> body x t = Inr t' \<Longrightarrow> Q t'"
  shows "Q s'"
proof -
  from mem obtain ys zs where xs: "xs = ys @ c # zs"
    by (auto dest: split_list)
  from dist have nys: "c \<notin> set ys" and nzs: "c \<notin> set zs"
    unfolding xs by auto
  from run obtain s1 s2 where p: "for_each ys body s = Inr s1" and b: "body c s1 = Inr s2"
    and r: "for_each zs body s2 = Inr s'"
    unfolding xs by (auto simp: for_each_append bind_res_eq_Inr)
  have "P s1"
    using p start
  proof (rule for_each_invariant)
    fix x t t'
    assume "x \<in> set ys" "P t" "body x t = Inr t'"
    then show "P t'" using before [of x t t'] nys by auto
  qed
  then have "Q s2" using b by (rule establish)
  with r show ?thesis
  proof (rule for_each_invariant)
    fix x t t'
    assume "x \<in> set zs" "Q t" "body x t = Inr t'"
    then show "Q t'" using after [of x t t'] nzs by auto
  qed
qed

lemma for_each_total:
  assumes "P s"
    and "\<And>x t. x \<in> set xs \<Longrightarrow> P t \<Longrightarrow> \<exists>t'. body x t = Inr t' \<and> P t'"
  shows "\<exists>s'. for_each xs body s = Inr s' \<and> P s'"
  using assms
proof (induction xs arbitrary: s)
  case Nil
  then show ?case by simp
next
  case (Cons x xs)
  from Cons.prems obtain s1 where b: "body x s = Inr s1" and "P s1"
    by (meson list.set_intros(1))
  then have "\<exists>s'. for_each xs body s1 = Inr s' \<and> P s'"
    using Cons.IH [of s1] Cons.prems(2) by simp
  then show ?case using b by simp
qed

lemma for_each_total_or:
  assumes "P s"
    and "\<And>x t. x \<in> set xs \<Longrightarrow> P t \<Longrightarrow> body x t = Inl e \<or> (\<exists>t'. body x t = Inr t' \<and> P t')"
  shows "for_each xs body s = Inl e \<or> (\<exists>s'. for_each xs body s = Inr s' \<and> P s')"
  using assms
proof (induction xs arbitrary: s)
  case Nil
  then show ?case by simp
next
  case (Cons x xs)
  from Cons.prems have "body x s = Inl e \<or> (\<exists>t'. body x s = Inr t' \<and> P t')"
    by (meson list.set_intros(1))
  then show ?case
  proof
    assume "body x s = Inl e"
    then show ?thesis by simp
  next
    assume "\<exists>t'. body x s = Inr t' \<and> P t'"
    then obtain s1 where b: "body x s = Inr s1" and "P s1" by auto
    then have "for_each xs body s1 = Inl e \<or> (\<exists>s'. for_each xs body s1 = Inr s' \<and> P s')"
      using Cons.IH [of s1] Cons.prems(2) by simp
    then show ?thesis using b by simp
  qed
qed

section \<open>Reading and assigning columns\<close>

lemma getitem_Inr_iff:
  "getitem df c = Inr col \<longleftrightarrow> find (\<lambda>col. cname col = c) df = Some col"
  by (simp add: getitem_def split: option.splits)

lemma getitem_Inr_mem:
  "getitem df c = Inr col \<Longrightarrow> col \<in> set df \<and> cname col = c"
  by (auto simp: getitem_Inr_iff find_Some_iff)

lemma getitem_in_columns:
  "getitem df c = Inr col \<Longrightarrow> c \<in> set (columns df)"
  by (auto simp: columns_def dest: getitem_Inr_mem)

lemma getitem_exists:
  "c \<in> set (columns df) \<Longrightarrow> \<exists>col. getitem df c = Inr col"
  by (cases "find (\<lambda>col. cname col = c) df") (auto simp: getitem_def find_None_iff columns_def)

lemma columns_setitem:
  "c \<in> set (columns df) \<Longrightarrow> columns (setitem df c cat vs) = columns df"
  by (simp add: setitem_def columns_def o_def cong: map_cong)

lemma find_map_update:
  "find (\<lambda>col. cname col = c') (map (\<lambda>col. if cname col = c then col\<lparr>is_categorical := cat, cells := vs\<rparr> else col) df)
   = (if c' = c then map_option (\<lambda>col. col\<lparr>is_categorical := cat, cells := vs\<rparr>) (find (\<lambda>col. cname col = c) df)
      else find (\<lambda>col. cname col = c') df)"
  by (induction df) auto

lemma find_app:
  "find P (xs @ ys) = (case find P xs of None \<Rightarrow> find P ys | Some x \<Rightarrow> Some x)"
  by (induction xs) auto

lemma getitem_setitem_other:
  "c' \<noteq> c \<Longrightarrow> getitem (setitem df c cat vs) c' = getitem df c'"
  by (auto simp: getitem_def setitem_def find_map_update find_app split: option.splits)

lemma getitem_setitem_same:
  "getitem df c = Inr col \<Longrightarrow>
     getitem (setitem df c cat vs) c = Inr (col\<lparr>is_categorical := cat, cells := vs\<rparr>)"
  using getitem_in_columns [of df c col]
  by (simp add: getitem_Inr_iff setitem_def find_map_update)

lemma DataFrame_columns: "DataFrame X cols = Inr nd \<Longrightarrow> columns nd = cols"
  by (auto simp: DataFrame_def columns_def o_def map_nth split: if_splits)

lemma for_each_frame:
  assumes run: "for_each xs body s = Inr s'"
    and step: "\<And>x t t'. x \<in> set xs \<Longrightarrow> body x t = Inr t' \<Longrightarrow> getitem t' c = getitem t c"
  shows "getitem s' c = getitem s c"
  using run
proof (rule for_each_invariant [where P = "\<lambda>t. getitem t c = getitem s c"])
  show "getitem s c = getitem s c" by simp
next
  fix x t t'
  assume "x \<in> set xs" "getitem t c = getitem s c" "body x t = Inr t'"
  then show "getitem t' c = getitem s c" using step [of x t t'] by simp
qed

lemma for_each_columns:
  assumes "for_each xs body s = Inr s'"
    and "\<And>x t t'. body x t = Inr t' \<Longrightarrow> columns t' = columns t"
  shows "columns s' = columns s"
  using assms(1)
proof (rule for_each_invariant [where P = "\<lambda>t. columns t = columns s"])
  show "columns s = columns s" by simp
next
  fix x t t'
  assume "columns t = columns s" "body x t = Inr t'"
  then show "columns t' = columns s" using assms(2) [of x t t'] by simp
qed

lemma getitem_DataFrame:
  assumes "DataFrame X cols = Inr nd" and "c \<in> set cols"
  shows "\<exists>j < length cols. cols ! j = c \<and>
           getitem nd c = Inr \<lparr>cname = c, is_categorical = False, cells = map (\<lambda>row. row ! j) X\<rparr>"
proof -
  from assms(1) have nd: "nd = map (\<lambda>j. \<lparr>cname = cols ! j, is_categorical = False,
                             cells = map (\<lambda>row. row ! j) X\<rparr>) [0..<length cols]"
    by (auto simp: DataFrame_def split: if_splits)
  have "c \<in> set (columns nd)"
    using assms by (simp add: DataFrame_columns)
  then obtain col where g: "getitem nd c = Inr col"
    by (auto dest: getitem_exists)
  then have "col \<in> set nd" "cname col = c"
    by (auto dest: getitem_Inr_mem)
  then obtain j where "j < length cols" "col = \<lparr>cname = cols ! j, is_categorical = False,
                             cells = map (\<lambda>row. row ! j) X\<rparr>"
    unfolding nd by auto
  with g \<open>cname col = c\<close> show ?thesis by auto
qed

section \<open>The column classifier partitions the columns\<close>

lemma columns_type_lists:
  "columns_type df = (selector_exclude df, selector_include df)"
  by (simp add: columns_type_def)

lemma mset_selectors:
  "mset (selector_exclude df @ selector_include df) = mset (columns df)"
  by (induction df) (auto simp: selector_exclude_def selector_include_def columns_def)

lemma selector_include_iff:
  "distinct (columns df) \<Longrightarrow> col \<in> set df \<Longrightarrow>
     cname col \<in> set (selector_include df) \<longleftrightarrow> is_categorical col"
  by (auto simp: selector_include_def columns_def distinct_map inj_on_def)

lemma selector_exclude_iff:
  "distinct (columns df) \<Longrightarrow> col \<in> set df \<Longrightarrow>
     cname col \<in> set (selector_exclude df) \<longleftrightarrow> \<not> is_categorical col"
  by (auto simp: selector_exclude_def columns_def distinct_map inj_on_def)

lemma selectors_disjoint:
  "distinct (columns df) \<Longrightarrow> set (selector_exclude df) \<inter> set (selector_include df) = {}"
  by (auto simp: selector_exclude_def selector_include_def columns_def distinct_map inj_on_def)

text \<open>
  Claim C8.  For every data frame, \<^verbatim>\<open>columns_type\<close> returns two lists of column names
  that together hold every column exactly once (as multisets, the two lists add up to
  the frame's column names), a categorical column's name being in the categorical list
  and every other column's name in the numerical list.  Where the column names are
  distinct, the two lists are disjoint and a column is in the categorical list exactly
  when its declared type is categorical, in the numerical list exactly when it is not.
\<close>

theorem columns_type_partition:
  assumes "columns_type df = (numerical_columns, categorical_columns)"
  shows "mset (numerical_columns @ categorical_columns) = mset (columns df) \<and>
         (\<forall>col \<in> set df. if is_categorical col then cname col \<in> set categorical_columns
                           else cname col \<in> set numerical_columns) \<and>
         (distinct (columns df) \<longrightarrow>
            set numerical_columns \<inter> set categorical_columns = {} \<and>
            (\<forall>col \<in> set df.
               (cname col \<in> set categorical_columns \<longleftrightarrow> is_categorical col) \<and>
               (cname col \<in> set numerical_columns \<longleftrightarrow> \<not> is_categorical col)))"
proof -
  from assms have n: "numerical_columns = selector_exclude df"
    and c: "categorical_columns = selector_include df"
    by (simp_all add: columns_type_lists)
  have "\<forall>col \<in> set df. if is_categorical col then cname col \<in> set (selector_include df)
                           else cname col \<in> set (selector_exclude df)"
    by (auto simp: selector_include_def selector_exclude_def)
  then show ?thesis
    unfolding n c
    using mset_selectors [of df] selectors_disjoint [of df]
      selector_include_iff [of df] selector_exclude_iff [of df]
    by blast
qed

theorem columns_type_partition_witness:
  "columns_type df_ex = ([''age''], [''sex'']) \<and> distinct (columns df_ex) \<and>
   mset ([''age''] @ [''sex'']) = mset (columns df_ex) \<and>
   set [''age''] \<inter> set [''sex''] = {} \<and>
   ''sex'' \<in> set [''sex''] \<and> ''age'' \<notin> set [''sex''] \<and>
   ''age'' \<in> set [''age''] \<and> ''sex'' \<notin> set [''age'']"
proof -
  have t: "columns_type df_ex = ([''age''], [''sex''])"
    by (simp add: columns_type_def selector_exclude_def selector_include_def df_ex_def)
  have d: "distinct (columns df_ex)"
    by (simp add: columns_def df_ex_def)
  show ?thesis
    using columns_type_partition [OF t] t d by (simp add: columns_def df_ex_def)
qed

section \<open>The guards of the orchestrator\<close>

lemma sum_list_isnull_pos:
  assumes "col \<in> set df" "Null \<in> set (cells col)"
  shows "0 < sum_list (isnull_sum df)"
proof -
  have "filter is_Null (cells col) \<noteq> []"
    using assms(2) by (force simp: filter_empty_conv)
  then have "0 < length (filter is_Null (cells col))" by simp
  moreover have "length (filter is_Null (cells col)) \<in> set (isnull_sum df)"
    using assms(1) by (auto simp: isnull_sum_def)
  ultimately show ?thesis
    using member_le_sum_list [of "length (filter is_Null (cells col))" "isnull_sum df"] by linarith
qed

text \<open>
  Claim C6.  For every data frame with at least one missing value, \<^verbatim>\<open>synthetic_data\<close>
  raises \<^verbatim>\<open>ValueError\<close> with the message about nan values, and the trace of
  constructed generators is empty: no generator is constructed and nothing is trained.
\<close>

theorem synthetic_data_missing_value:
  assumes "col \<in> set df" "Null \<in> set (cells col)"
  shows "synthetic_data E df samples initial_lr dropout batch_size epochs =
           (Inl (ValueError nan_message), [])"
  using sum_list_isnull_pos [OF assms] by (simp add: synthetic_data_def)

theorem synthetic_data_missing_value_witness:
  "synthetic_data E_ex df_missing 2 (1 / 5000) (1 / 2) 48 10 = (Inl (ValueError nan_message), [])"
proof -
  have "\<lparr>cname = ''age'', is_categorical = False, cells = [Num 0, Null]\<rparr> \<in> set df_missing"
    by (simp add: df_missing_def)
  then show ?thesis
    by (rule synthetic_data_missing_value) simp
qed

lemma filter_cname_distinct:
  assumes "distinct (columns df)" "p \<in> set df"
  shows "filter (\<lambda>col. cname col = cname p) df = [p]"
  using assms
proof (induction df)
  case Nil
  then show ?case by simp
next
  case (Cons a df)
  show ?case
  proof (cases "a = p")
    case True
    have "cname p \<notin> cname ` set df"
      using True Cons.prems(1) by (simp add: columns_def)
    then have "\<forall>col \<in> set df. cname col \<noteq> cname p"
      by (metis imageI)
    then have "filter (\<lambda>col. cname col = cname p) df = []"
      by (auto simp: filter_empty_conv)
    then show ?thesis using True by simp
  next
    case False
    then have "p \<in> set df" using Cons.prems(2) by simp
    moreover have "cname a \<noteq> cname p"
      using Cons.prems(1) \<open>p \<in> set df\<close> by (auto simp: columns_def)
    ultimately show ?thesis using Cons by (simp add: columns_def)
  qed
qed

lemma iloc0_is_str_distinct:
  "distinct (columns df) \<Longrightarrow> p \<in> set df \<Longrightarrow> iloc0_is_str df (cname p) = first_cell_is_str p"
  by (simp add: iloc0_is_str_def filter_cname_distinct)

lemma string_guard_pass:
  assumes "\<forall>c \<in> set cs. length (filter (\<lambda>col. cname col = c) df) = 1 \<and> \<not> iloc0_is_str df c"
    and "0 < nrows df"
  shows "for_each cs
       (\<lambda>c _. if length (filter (\<lambda>col. cname col = c) df) \<noteq> 1 then Inl AttributeError
              else if nrows df = 0 then Inl IndexError
              else if iloc0_is_str df c then Inl (ValueError (string_message c))
              else Inr ()) () = Inr ()"
  using assms by (induction cs) simp_all

text \<open>
  Claim C7, as the code has it.  The claim says that every frame with a string-valued
  column is rejected with an error naming that column.  The guard for strings runs
  after the guard for missing values and looks at the first row only, column by column.
  So: for every frame without missing values, with at least one row and distinct
  column names, whose first row holds a string in column \<open>col\<close> and in no column before
  it, \<^verbatim>\<open>synthetic_data\<close> raises \<^verbatim>\<open>ValueError\<close> with the message naming \<open>col\<close>, and
  no generator is constructed.
\<close>

theorem synthetic_data_string_first_row:
  assumes "sum_list (isnull_sum df) = 0" and "0 < nrows df"
    and "distinct (columns df)"
    and "df = pre @ col # post"
    and "first_cell_is_str col"
    and "list_all (\<lambda>p. \<not> first_cell_is_str p) pre"
  shows "synthetic_data E df samples initial_lr dropout batch_size epochs =
           (Inl (ValueError (string_message (cname col))), [])"
proof -
  have hit: "iloc0_is_str df (cname col)"
    using assms(3,4,5) by (simp add: iloc0_is_str_distinct)
  have one: "length (filter (\<lambda>c. cname c = cname p) df) = 1" if "p \<in> set df" for p
    using filter_cname_distinct [OF assms(3) that] by simp
  have "\<forall>p \<in> set pre. length (filter (\<lambda>c. cname c = cname p) df) = 1 \<and>
          \<not> iloc0_is_str df (cname p)"
    using assms(3,4,6) one by (simp add: iloc0_is_str_distinct list_all_iff)
  then have "\<forall>c \<in> set (columns pre). length (filter (\<lambda>col. cname col = c) df) = 1 \<and>
          \<not> iloc0_is_str df c"
    by (auto simp: columns_def)
  from string_guard_pass [OF this assms(2)]
  have pass: "for_each (columns pre)
       (\<lambda>c _. if length (filter (\<lambda>col. cname col = c) df) \<noteq> 1 then Inl AttributeError
              else if nrows df = 0 then Inl IndexError
              else if iloc0_is_str df c then Inl (ValueError (string_message c))
              else Inr ()) () = Inr ()" .
  have "col \<in> set df" using assms(4) by simp
  then have one_col: "length (filter (\<lambda>c. cname c = cname col) df) = 1" by (rule one)
  have cols: "columns df = columns pre @ cname col # columns post"
    using assms(4) by (simp add: columns_def)
  have "string_guard df = Inl (ValueError (string_message (cname col)))"
    unfolding string_guard_def cols for_each_append pass
    using hit assms(2) one_col by simp
  then show ?thesis
    using assms(1) by (simp add: synthetic_data_def bind_trace_def del: sum_list_eq_0_iff)
qed

theorem synthetic_data_string_first_row_witness:
  "synthetic_data E_ex df_strings 2 (1 / 5000) (1 / 2) 48 10 =
     (Inl (ValueError (string_message ''city'')), [])"
proof -
  have "synthetic_data E_ex df_strings 2 (1 / 5000) (1 / 2) 48 10 =
     (Inl (ValueError (string_message (cname \<lparr>cname = ''city'', is_categorical = False,
         cells = [Str ''Oslo'', Str ''Rome'']\<rparr>))), [])"
    by (rule synthetic_data_string_first_row
          [where pre = "[\<lparr>cname = ''age'', is_categorical = False, cells = [Num 0, Num 1]\<rparr>]"
             and post = "[\<lparr>cname = ''name'', is_categorical = False,
                           cells = [Str ''Ann'', Str ''Bob'']\<rparr>]"])
       (simp_all add: df_strings_def isnull_sum_def nrows_def columns_def first_cell_is_str_def)
  then show ?thesis by simp
qed

text \<open>
  The claim C7 as stated fails on three frames.  In \<open>df_missing\<close> the column
  \<^verbatim>\<open>city\<close> holds strings and another cell is missing: the error is the one about nan
  values, which names no column.  In \<open>df_late_string\<close> the string of \<^verbatim>\<open>city\<close> is in
  the second row: the guard lets the frame pass, and the error comes from the scaler's
  conversion to float, naming no column.  In \<open>df_strings\<close> the columns \<^verbatim>\<open>city\<close> and
  \<^verbatim>\<open>name\<close> both hold strings: the error names \<^verbatim>\<open>city\<close> only.
\<close>

theorem synthetic_data_string_counterexample:
  "synthetic_data E_ex df_missing 2 (1 / 5000) (1 / 2) 48 10 = (Inl (ValueError nan_message), []) \<and>
   nan_message \<noteq> string_message ''city'' \<and>
   synthetic_data E_ex df_late_string 2 (1 / 5000) (1 / 2) 48 10 =
     (Inl (ValueError ''could not convert string to float''), []) \<and>
   ''could not convert string to float'' \<noteq> string_message ''city'' \<and>
   synthetic_data E_ex df_strings 2 (1 / 5000) (1 / 2) 48 10 =
     (Inl (ValueError (string_message ''city'')), []) \<and>
   string_message ''city'' \<noteq> string_message ''name''"
  by code_simp

section \<open>The retry policy\<close>

lemma train_gan_Inr:
  "train_gan E ep bs X n lr dr tr = (Inr r, tr') \<Longrightarrow>
     r = gan_train E (length tr)
           \<lparr>arg_number_of_features = n, arg_learning_rate = lr, arg_dropout = dr,
            arg_scaled_data = X, arg_epochs = ep, arg_batch_size = bs\<rparr> \<and>
     tr' = tr @ [\<lparr>arg_number_of_features = n, arg_learning_rate = lr, arg_dropout = dr,
            arg_scaled_data = X, arg_epochs = ep, arg_batch_size = bs\<rparr>]"
  by (auto simp: train_gan_def Let_def split: if_splits)

text \<open>
  On every input, \<^verbatim>\<open>synthetic_data\<close> trains at most twice: with the initial learning
  rate, and then with a tenth of it.  No run trains with a hundredth.
\<close>

lemma synthetic_data_attempts:
  "map arg_learning_rate (snd (synthetic_data E df samples initial_lr dropout batch_size epochs))
     \<in> {[], [initial_lr], [initial_lr, initial_lr / 10]}"
  by (auto simp: synthetic_data_def bind_trace_def train_gan_def Let_def
      split: if_splits sum.splits prod.splits)

text \<open>
  Claim C1, evaluated on a run whose every training ends with generator loss 2.  The
  claim asks for a third attempt with the learning rate divided by 100 when the retry
  condition holds again.  The code trains twice, with learning rates \<open>1/5000\<close> and
  \<open>1/50000\<close>, and accepts the second result: the branch that divides by 100 is the
  \<^verbatim>\<open>else\<close> branch of the test \<^verbatim>\<open>G_loss > 1\<close> and repeats that test, so it never
  runs.
\<close>

theorem synthetic_data_retry_attempts:
  "(\<forall>i args. fst (gan_train E_ex i args) = 2) \<and>
   synthetic_data E_ex df_ex 2 (1 / 5000) (1 / 2) 48 10 =
     (Inr out_ex,
      [\<lparr>arg_number_of_features = 2, arg_learning_rate = 1 / 5000, arg_dropout = 1 / 2,
        arg_scaled_data = [[Num (- 1), Num 1], [Num (- (1 / 2)), Num (- 1)], [Num 1, Num 1]],
        arg_epochs = 10, arg_batch_size = 48\<rparr>,
       \<lparr>arg_number_of_features = 2, arg_learning_rate = 1 / 50000, arg_dropout = 1 / 2,
        arg_scaled_data = [[Num (- 1), Num 1], [Num (- (1 / 2)), Num (- 1)], [Num 1, Num 1]],
        arg_epochs = 10, arg_batch_size = 48\<rparr>])"
proof
  show "\<forall>i args. fst (gan_train E_ex i args) = 2"
    by (simp add: E_ex_def)
  show "synthetic_data E_ex df_ex 2 (1 / 5000) (1 / 2) 48 10 =
     (Inr out_ex,
      [\<lparr>arg_number_of_features = 2, arg_learning_rate = 1 / 5000, arg_dropout = 1 / 2,
        arg_scaled_data = [[Num (- 1), Num 1], [Num (- (1 / 2)), Num (- 1)], [Num 1, Num 1]],
        arg_epochs = 10, arg_batch_size = 48\<rparr>,
       \<lparr>arg_number_of_features = 2, arg_learning_rate = 1 / 50000, arg_dropout = 1 / 2,
        arg_scaled_data = [[Num (- 1), Num 1], [Num (- (1 / 2)), Num (- 1)], [Num 1, Num 1]],
        arg_epochs = 10, arg_batch_size = 48\<rparr>])"
    by code_simp
qed

section \<open>Column names and order are preserved\<close>

lemma generate_data_InrE [consumes 1, case_names loops]:
  assumes "generate_data E df X cat num cs ns = Inr newdf"
  obtains nd n1 n2 where "DataFrame X (columns df) = Inr nd"
    and "for_each cat (inverse_categorical df cs) nd = Inr n1"
    and "for_each num (inverse_numerical E ns) n1 = Inr n2"
    and "for_each cat (remap_binary df) n2 = Inr newdf"
  using assms unfolding generate_data_def by (auto simp: bind_res_eq_Inr)

lemma inverse_categorical_columns:
  "inverse_categorical df cs c t = Inr t' \<Longrightarrow> columns t' = columns t"
  by (auto simp: inverse_categorical_def bind_res_eq_Inr columns_setitem
      dest: getitem_in_columns split: if_splits)

lemma inverse_numerical_columns:
  "inverse_numerical E ns c t = Inr t' \<Longrightarrow> columns t' = columns t"
  by (auto simp: inverse_numerical_def bind_res_eq_Inr columns_setitem
      dest: getitem_in_columns split: if_splits)

lemma remap_binary_columns:
  "remap_binary df c t = Inr t' \<Longrightarrow> columns t' = columns t"
  by (auto simp: remap_binary_def bind_res_eq_Inr columns_setitem
      dest: getitem_in_columns split: if_splits)

lemma rescale_columns:
  "rescale df c t = Inr t' \<Longrightarrow> columns t' = columns t"
  by (auto simp: rescale_def bind_res_eq_Inr columns_setitem
      dest: getitem_in_columns split: if_splits)

lemma generate_data_columns:
  assumes "generate_data E df X cat num cs ns = Inr newdf"
  shows "columns newdf = columns df"
  using assms
proof (cases rule: generate_data_InrE)
  case (loops nd n1 n2)
  have "columns nd = columns df" using loops(1) by (rule DataFrame_columns)
  moreover have "columns n1 = columns nd"
    using loops(2) inverse_categorical_columns by (rule for_each_columns)
  moreover have "columns n2 = columns n1"
    using loops(3) inverse_numerical_columns by (rule for_each_columns)
  moreover have "columns newdf = columns n2"
    using loops(4) remap_binary_columns by (rule for_each_columns)
  ultimately show ?thesis by simp
qed

lemma final_rescale_columns:
  assumes "final_rescale df num newdf = Inr out"
  shows "columns out = columns newdf"
proof -
  from assms have "for_each num (rescale df) newdf = Inr out"
    by (simp add: final_rescale_def)
  then show ?thesis using rescale_columns by (rule for_each_columns)
qed

lemma bind_trace_Inr:
  "bind_trace m f = (Inr y, tr) \<longleftrightarrow> (\<exists>x tr0. m = (Inr x, tr0) \<and> f x tr0 = (Inr y, tr))"
  by (cases m) (auto simp: bind_trace_def split: sum.splits)

lemma synthetic_data_InrE [consumes 1, case_names run]:
  assumes "synthetic_data E df samples initial_lr dropout batch_size epochs = (Inr out, trace)"
  obtains scaled_X cs ns gan newdf where
    "sum_list (isnull_sum df) = 0" and "string_guard df = Inr ()"
    and "data_transformation E df (fst (columns_type df)) (snd (columns_type df)) =
           Inr (scaled_X, cs, ns)"
    and "generate_data E df (map (map Num) (create_fake_samples E gan samples))
           (snd (columns_type df)) (fst (columns_type df)) cs ns = Inr newdf"
    and "final_rescale df (fst (columns_type df)) newdf = Inr out"
proof -
  from assms have z: "sum_list (isnull_sum df) = 0"
    by (auto simp: synthetic_data_def split: if_splits)
  from assms z obtain scaled_X cs ns gan newdf where
    "string_guard df = Inr ()"
    "data_transformation E df (fst (columns_type df)) (snd (columns_type df)) =
           Inr (scaled_X, cs, ns)"
    "generate_data E df (map (map Num) (create_fake_samples E gan samples))
           (snd (columns_type df)) (fst (columns_type df)) cs ns = Inr newdf"
    "final_rescale df (fst (columns_type df)) newdf = Inr out"
    by (auto simp: synthetic_data_def bind_trace_Inr Let_def split_beta
        simp del: sum_list_eq_0_iff)
  with z show ?thesis by (rule that)
qed

lemma run_ex:
  "synthetic_data E_ex df_ex 2 (1 / 5000) (1 / 2) 48 10 =
     (Inr out_ex, snd (synthetic_data E_ex df_ex 2 (1 / 5000) (1 / 2) 48 10))"
  by code_simp

text \<open>
  Claim C4.  Whenever \<^verbatim>\<open>synthetic_data\<close> returns a frame, that frame has the column
  names of the input frame, in the same order.
\<close>

theorem synthetic_data_columns:
  assumes "synthetic_data E df samples initial_lr dropout batch_size epochs = (Inr out, trace)"
  shows "columns out = columns df"
  using assms
proof (cases rule: synthetic_data_InrE)
  case (run scaled_X cs ns gan newdf)
  from run(4) have "columns newdf = columns df" by (rule generate_data_columns)
  moreover from run(5) have "columns out = columns newdf" by (rule final_rescale_columns)
  ultimately show ?thesis by simp
qed

theorem synthetic_data_columns_witness:
  "synthetic_data E_ex df_ex 2 (1 / 5000) (1 / 2) 48 10 =
     (Inr out_ex, snd (synthetic_data E_ex df_ex 2 (1 / 5000) (1 / 2) 48 10)) \<and>
   columns out_ex = columns df_ex"
  using synthetic_data_columns [OF run_ex] run_ex by simp

section \<open>Columns the loops leave alone\<close>

lemma inverse_categorical_other:
  "x \<noteq> c \<Longrightarrow> inverse_categorical df cs x t = Inr t' \<Longrightarrow> getitem t' c = getitem t c"
  by (auto simp: inverse_categorical_def bind_res_eq_Inr getitem_setitem_other split: if_splits)

lemma inverse_numerical_other:
  "x \<noteq> c \<Longrightarrow> inverse_numerical E ns x t = Inr t' \<Longrightarrow> getitem t' c = getitem t c"
  by (auto simp: inverse_numerical_def bind_res_eq_Inr getitem_setitem_other split: if_splits)

lemma remap_binary_other:
  "x \<noteq> c \<Longrightarrow> remap_binary df x t = Inr t' \<Longrightarrow> getitem t' c = getitem t c"
  by (auto simp: remap_binary_def bind_res_eq_Inr getitem_setitem_other split: if_splits)


lemma inverse_categorical_single:
  assumes "getitem df c = Inr dcol" "np_unique (cells dcol) = Inr [u]"
  shows "inverse_categorical df cs c t = Inr t"
  using assms by (simp add: inverse_categorical_def)

lemma remap_binary_single:
  assumes "getitem df c = Inr dcol" "np_unique (cells dcol) = Inr [u]"
  shows "remap_binary df c t = Inr t"
  using assms by (simp add: remap_binary_def)

lemma gd_const:
  "generate_data E_ex df_const x_const [''sex'', ''land''] [''age''] cs_const ns_ex =
     Inr [\<lparr>cname = ''age'', is_categorical = False, cells = [Num 2, Num 4]\<rparr>,
          \<lparr>cname = ''sex'', is_categorical = True, cells = [Num 5, Num 3]\<rparr>,
          \<lparr>cname = ''land'', is_categorical = False, cells = [Num 9, Num 8]\<rparr>]"
  by code_simp

text \<open>
  Claim C9.  Let \<open>c\<close> be a categorical column (and not a numerical one) whose input
  column has exactly one distinct value.  Whenever \<^verbatim>\<open>generate_data\<close> returns a frame,
  its column \<open>c\<close> is the column of the generated matrix as \<^verbatim>\<open>pd.DataFrame\<close> built
  it: the float column of the values at \<open>c\<close>'s position in every generated row,
  with no inverse scaling, binning, cast or remapping.
\<close>

theorem generate_data_single_valued:
  assumes run: "generate_data E df x_synthetic categorical_columns numerical_columns
                  categorical_scaler numerical_scaler = Inr newdf"
    and cat: "c \<in> set categorical_columns" and num: "c \<notin> set numerical_columns"
    and col: "getitem df c = Inr dcol" and one: "np_unique (cells dcol) = Inr [u]"
  shows "\<exists>j < length (columns df). columns df ! j = c \<and>
           getitem newdf c =
             Inr \<lparr>cname = c, is_categorical = False, cells = map (\<lambda>row. row ! j) x_synthetic\<rparr>"
  using run
proof (cases rule: generate_data_InrE)
  case (loops nd n1 n2)
  have "getitem n1 c = getitem nd c"
    using loops(2)
  proof (rule for_each_frame)
    fix x t t'
    assume "inverse_categorical df categorical_scaler x t = Inr t'"
    then show "getitem t' c = getitem t c"
      using inverse_categorical_other [of x c df categorical_scaler t t']
        inverse_categorical_single [OF col one, of categorical_scaler t]
      by (cases "x = c") auto
  qed
  moreover have "getitem n2 c = getitem n1 c"
    using loops(3)
  proof (rule for_each_frame)
    fix x t t'
    assume "x \<in> set numerical_columns" "inverse_numerical E numerical_scaler x t = Inr t'"
    then show "getitem t' c = getitem t c"
      using num inverse_numerical_other [of x c E numerical_scaler t t'] by auto
  qed
  moreover have "getitem newdf c = getitem n2 c"
    using loops(4)
  proof (rule for_each_frame)
    fix x t t'
    assume "remap_binary df x t = Inr t'"
    then show "getitem t' c = getitem t c"
      using remap_binary_other [of x c df t t'] remap_binary_single [OF col one, of t]
      by (cases "x = c") auto
  qed
  moreover have "c \<in> set (columns df)"
    using col by (rule getitem_in_columns)
  ultimately show ?thesis
    using getitem_DataFrame [OF loops(1)] by simp
qed

theorem generate_data_single_valued_witness:
  "\<exists>j < length (columns df_const). columns df_const ! j = ''land'' \<and>
     getitem [\<lparr>cname = ''age'', is_categorical = False, cells = [Num 2, Num 4]\<rparr>,
              \<lparr>cname = ''sex'', is_categorical = True, cells = [Num 5, Num 3]\<rparr>,
              \<lparr>cname = ''land'', is_categorical = False, cells = [Num 9, Num 8]\<rparr>] ''land'' =
       Inr \<lparr>cname = ''land'', is_categorical = False, cells = map (\<lambda>row. row ! j) x_const\<rparr>"
proof (rule generate_data_single_valued [OF gd_const])
  show "''land'' \<in> set [''sex'', ''land'']" by simp
  show "''land'' \<notin> set [''age'']" by simp
  show "getitem df_const ''land'' =
          Inr \<lparr>cname = ''land'', is_categorical = True, cells = [Num 7, Num 7, Num 7]\<rparr>"
    by (simp add: getitem_def df_const_def)
  show "np_unique (cells \<lparr>cname = ''land'', is_categorical = True,
                          cells = [Num 7, Num 7, Num 7]\<rparr>) = Inr [Num 7]"
    by (simp add: np_unique_def)
qed

section \<open>Numerical columns stay within the observed range\<close>






section \<open>Binary categorical columns\<close>

lemma num_values_map_Num [simp]: "num_values (map Num rs) = rs"
  by (induction rs) simp_all

lemma list_all_is_Num_map [simp]: "list_all is_Num (map Num rs)"
  by (simp add: list_all_iff)

lemma as_floats_map_Num [simp]: "as_floats (map Num rs) = Inr rs"
  by (simp add: as_floats_def list_ex_iff)

lemma check_array_map_Num:
  "check_array (map Num rs) = (if rs = [] then Inl (ValueError ''Found array with 0 sample(s)'') else Inr rs)"
  by (simp add: check_array_def)

lemma np_unique_map_Num [simp]:
  "np_unique (map Num rs) = Inr (map Num (sort (remdups rs)))"
  by (simp add: np_unique_def)

lemma is_Num_cells: "list_all is_Num cs \<Longrightarrow> cs = map Num (num_values cs)"
proof (induction cs)
  case Nil
  show ?case by simp
next
  case (Cons a cs)
  then show ?case by (cases a) simp_all
qed


lemma length_linspace [simp]: "length (linspace a b n) = n"
  by (simp add: linspace_def)





lemma inverse_categorical_binned:
  assumes run: "inverse_categorical df cs c t = Inr t'"
    and col: "getitem df c = Inr dcol" and u: "np_unique (cells dcol) = Inr u" "1 < length u"
    and t: "getitem t c = Inr ncol"
  shows "\<exists>ys codes. MinMaxScaler_inverse_transform cs (cells ncol) = Inr ys \<and>
           KBinsDiscretizer_fit_transform (length u) (map Num ys) = Inr codes \<and>
           getitem t' c = Inr (ncol\<lparr>is_categorical := True, cells := map (\<lambda>k. Num (real k)) codes\<rparr>)"
  using run col u t
  by (auto simp: inverse_categorical_def bind_res_eq_Inr getitem_setitem_same)






section \<open>A constant binned column of a binary category\<close>

lemma numeric_column_cells:
  assumes "numeric_column col"
  shows "\<exists>rs. rs \<noteq> [] \<and> cells col = map Num rs"
proof -
  from assms have c: "cells col = map Num (num_values (cells col))" and "cells col \<noteq> []"
    using is_Num_cells [of "cells col"] by (simp_all add: numeric_column_def)
  then have "num_values (cells col) \<noteq> []" by (metis map_is_Nil_conv)
  with c show ?thesis by blast
qed

lemma distinct_singleton_set:
  assumes "distinct xs" "set xs = {a}"
  shows "xs = [a]"
proof (cases xs)
  case Nil
  then show ?thesis using assms(2) by simp
next
  case (Cons y ys)
  then have "y = a" "set ys \<subseteq> {a}" "a \<notin> set ys"
    using assms by auto
  then have "ys = []" by (cases ys) auto
  then show ?thesis using Cons \<open>y = a\<close> by simp
qed

lemma numeric_setitem:
  assumes "list_all numeric_column t" "rs \<noteq> []"
  shows "list_all numeric_column (setitem t x cat (map Num rs))"
  using assms by (auto simp: setitem_def list_all_iff numeric_column_def)

lemma getitem_numeric:
  "list_all numeric_column t \<Longrightarrow> getitem t x = Inr col \<Longrightarrow> numeric_column col"
  by (auto simp: list_all_iff dest: getitem_Inr_mem)


lemma KBins_total:
  assumes "rs \<noteq> []" "2 \<le> k"
  shows "\<exists>codes. KBinsDiscretizer_fit_transform k (map Num rs) = Inr codes \<and> length codes = length rs"
  using assms by (simp add: KBinsDiscretizer_fit_transform_def check_array_map_Num Let_def)

lemma inverse_total:
  assumes "rs \<noteq> []"
  shows "\<exists>ys. MinMaxScaler_inverse_transform (Some s) (map Num rs) = Inr ys \<and> length ys = length rs"
  using assms by (simp add: MinMaxScaler_inverse_transform_def check_array_map_Num)

lemma inverse_categorical_total:
  assumes df: "list_all numeric_column df" and x: "x \<in> set (columns df)"
    and t: "columns t = columns df" "list_all numeric_column t"
  shows "\<exists>t'. inverse_categorical df (Some s) x t = Inr t' \<and>
           columns t' = columns df \<and> list_all numeric_column t'"
proof -
  from x obtain dcol where d: "getitem df x = Inr dcol"
    by (auto dest: getitem_exists)
  then obtain ds where ds: "cells dcol = map Num ds"
    using df by (auto dest: getitem_numeric numeric_column_cells)
  obtain u where u: "np_unique (cells dcol) = Inr u"
    unfolding ds by simp
  show ?thesis
  proof (cases "1 < length u")
    case False
    then show ?thesis using d u t by (simp add: inverse_categorical_def)
  next
    case True
    from x t(1) obtain ncol where n: "getitem t x = Inr ncol"
      using getitem_exists [of x t] by auto
    then obtain rs where rs: "rs \<noteq> []" "cells ncol = map Num rs"
      using t(2) by (auto dest: getitem_numeric numeric_column_cells)
    from inverse_total [OF rs(1), of s] obtain ys
      where ys: "MinMaxScaler_inverse_transform (Some s) (map Num rs) = Inr ys" "length ys = length rs"
      by auto
    then have "ys \<noteq> []" using rs(1) by auto
    from KBins_total [OF this, of "length u"] True obtain codes
      where codes: "KBinsDiscretizer_fit_transform (length u) (map Num ys) = Inr codes"
        "length codes = length ys" by auto
    have m: "map (\<lambda>k. Num (real k)) codes = map Num (map real codes)" by simp
    have "map real codes \<noteq> []" using codes(2) \<open>ys \<noteq> []\<close> by auto
    then have "list_all numeric_column (setitem t x True (map (\<lambda>k. Num (real k)) codes))"
      unfolding m using t(2) by (intro numeric_setitem)
    moreover have "columns (setitem t x True (map (\<lambda>k. Num (real k)) codes)) = columns df"
      using x t(1) by (simp add: columns_setitem)
    ultimately show ?thesis
      using d u True n rs(2) ys(1) codes(1) by (simp add: inverse_categorical_def)
  qed
qed

lemma inverse_numerical_total:
  assumes x: "x \<in> set (columns df)"
    and t: "columns t = columns df" "list_all numeric_column t"
  shows "\<exists>t'. inverse_numerical E (Some (q, s)) x t = Inr t' \<and>
           columns t' = columns df \<and> list_all numeric_column t'"
proof -
  from x t(1) obtain ncol where n: "getitem t x = Inr ncol"
    using getitem_exists [of x t] by auto
  then obtain rs where rs: "rs \<noteq> []" "cells ncol = map Num rs"
    using t(2) by (auto dest: getitem_numeric numeric_column_cells)
  from inverse_total [OF rs(1), of s] obtain ys
    where ys: "MinMaxScaler_inverse_transform (Some s) (map Num rs) = Inr ys" "length ys = length rs"
    by auto
  then have ne: "map (qt_inverse_transform E q) ys \<noteq> []" using rs(1) by auto
  have "list_all numeric_column (setitem t x False (map Num (map (qt_inverse_transform E q) ys)))"
    using t(2) ne by (intro numeric_setitem)
  moreover have "columns (setitem t x False (map Num (map (qt_inverse_transform E q) ys))) = columns df"
    using x t(1) by (simp add: columns_setitem)
  ultimately show ?thesis
    using n rs(2) ys(1) by (simp add: inverse_numerical_def numerical_inverse_transform_def)
qed

lemma replace_numeric:
  assumes "list_all is_Num X" "is_Num u0" "is_Num u1"
  shows "list_all is_Num (replace [n0, n1] [u0, u1] X)"
  using assms by (auto simp: replace_def list_all_iff)

lemma index_mem: "index a i = Inr v \<Longrightarrow> v \<in> set a"
  by (auto simp: index_def split: if_splits)

lemma index_cases: "index a i = Inl IndexError \<or> (\<exists>v. index a i = Inr v)"
  by (simp add: index_def)

lemma remap_binary_total_or:
  assumes df: "list_all numeric_column df" and x: "x \<in> set (columns df)"
    and t: "columns t = columns df" "list_all numeric_column t"
  shows "remap_binary df x t = Inl IndexError \<or>
         (\<exists>t'. remap_binary df x t = Inr t' \<and> columns t' = columns df \<and> list_all numeric_column t')"
proof -
  from x obtain dcol where d: "getitem df x = Inr dcol"
    by (auto dest: getitem_exists)
  then obtain ds where ds: "cells dcol = map Num ds"
    using df by (auto dest: getitem_numeric numeric_column_cells)
  obtain u where u: "np_unique (cells dcol) = Inr u" and un: "list_all is_Num u"
    unfolding ds by simp
  show ?thesis
  proof (cases "length u = 2")
    case False
    then show ?thesis using d u t by (simp add: remap_binary_def)
  next
    case True
    from x t(1) obtain ncol where n: "getitem t x = Inr ncol"
      using getitem_exists [of x t] by auto
    then obtain rs where rs: "rs \<noteq> []" "cells ncol = map Num rs"
      using t(2) by (auto dest: getitem_numeric numeric_column_cells)
    obtain nu where nu: "np_unique (cells ncol) = Inr nu"
      unfolding rs by simp
    from True obtain u0 u1 where u01: "index u 0 = Inr u0" "index u 1 = Inr u1"
      by (simp add: index_def)
    then have num01: "is_Num u0" "is_Num u1"
      using un by (auto simp: list_all_iff dest: index_mem)
    consider "index nu 0 = Inl IndexError" | "index nu 1 = Inl IndexError"
      | n0 n1 where "index nu 0 = Inr n0" "index nu 1 = Inr n1"
      using index_cases [of nu 0] index_cases [of nu 1] by auto
    then show ?thesis
    proof cases
      case 1
      then show ?thesis using d u True n nu by (simp add: remap_binary_def)
    next
      case 2
      then show ?thesis
        using d u True n nu index_cases [of nu 0] by (auto simp: remap_binary_def)
    next
      case 3
      let ?vs = "replace [n0, n1] [u0, u1] (cells ncol)"
      have "list_all is_Num ?vs"
        using num01 unfolding rs by (intro replace_numeric) simp_all
      moreover have "?vs \<noteq> []" using rs by (simp add: replace_def)
      ultimately have "?vs = map Num (num_values ?vs)" "num_values ?vs \<noteq> []"
        using is_Num_cells [of ?vs] by auto
      then have "list_all numeric_column (setitem t x (is_categorical ncol) ?vs)"
        using t(2) numeric_setitem [of t "num_values ?vs" x "is_categorical ncol"] by simp
      moreover have "columns (setitem t x (is_categorical ncol) ?vs) = columns df"
        using x t(1) by (simp add: columns_setitem)
      ultimately show ?thesis
        using d u True n nu 3 u01 by (simp add: remap_binary_def)
    qed
  qed
qed

lemma np_unique_codes:
  "np_unique (map (\<lambda>k. Num (real k)) codes) = Inr (map Num (sort (remdups (map real codes))))"
  using np_unique_map_Num [of "map real codes"] by (simp add: o_def)

lemma remap_binary_constant:
  assumes col: "getitem df c = Inr dcol" and two: "np_unique (cells dcol) = Inr [u0, u1]"
    and t: "getitem t c = Inr ncol" "cells ncol = map (\<lambda>k. Num (real k)) codes"
    and const: "set codes = {k}"
  shows "remap_binary df c t = Inl IndexError"
proof -
  have "remdups (map real codes) = [real k]"
  proof -
    have "set (remdups (map real codes)) = {real k}" using const by simp
    moreover have "distinct (remdups (map real codes))" by simp
    ultimately show ?thesis
      by (rule distinct_singleton_set [rotated])
  qed
  then have "np_unique (cells ncol) = Inr [Num (real k)]"
    using t(2) by (simp add: np_unique_codes)
  then show ?thesis
    using col two t(1) by (simp add: remap_binary_def index_def)
qed

lemma generate_data_constant_bin:
  assumes df: "list_all numeric_column df"
    and cat: "set cat \<subseteq> set (columns df)" "c \<in> set cat" "distinct cat"
    and num: "set num \<subseteq> set (columns df)" "c \<notin> set num" "num = [] \<or> ns \<noteq> None"
    and nd: "DataFrame X (columns df) = Inr nd" "list_all numeric_column nd"
    and col: "getitem df c = Inr dcol" and two: "np_unique (cells dcol) = Inr [u0, u1]"
    and ncol: "getitem nd c = Inr ncol"
    and ys: "MinMaxScaler_inverse_transform (Some s) (cells ncol) = Inr ys"
    and codes: "KBinsDiscretizer_fit_transform 2 (map Num ys) = Inr codes"
    and const: "set codes = {k}"
  shows "generate_data E df X cat num (Some s) ns = Inl IndexError"
proof -
  let ?P = "\<lambda>t. columns t = columns df \<and> list_all numeric_column t"
  let ?C = "\<lambda>t. \<exists>col. getitem t c = Inr col \<and> cells col = map (\<lambda>k. Num (real k)) codes"
  from \<open>c \<in> set cat\<close> obtain pre post where split: "cat = pre @ c # post"
    by (auto dest: split_list)
  with \<open>distinct cat\<close> have pre: "c \<notin> set pre" and post: "c \<notin> set post" by auto
  have P0: "?P nd" using nd by (simp add: DataFrame_columns)
  \<comment> \<open>the first loop runs through, and leaves the constant codes in the column\<close>
  have "\<exists>n1. for_each cat (inverse_categorical df (Some s)) nd = Inr n1 \<and> ?P n1"
    using P0
  proof (rule for_each_total)
    fix x t
    assume "x \<in> set cat" "?P t"
    then show "\<exists>t'. inverse_categorical df (Some s) x t = Inr t' \<and> ?P t'"
      using inverse_categorical_total [OF df, of x t s] cat(1) by auto
  qed
  then obtain n1 where n1: "for_each cat (inverse_categorical df (Some s)) nd = Inr n1" "?P n1"
    by auto
  have C1: "?C n1"
    using n1(1) cat(2,3)
  proof (rule for_each_post_distinct [where P = "\<lambda>t. getitem t c = Inr ncol"])
    show "getitem nd c = Inr ncol" by (rule ncol)
  next
    fix x t t'
    assume "x \<noteq> c" "getitem t c = Inr ncol" "inverse_categorical df (Some s) x t = Inr t'"
    then show "getitem t' c = Inr ncol"
      using inverse_categorical_other [of x c df "Some s" t t'] by simp
  next
    fix t t'
    assume "getitem t c = Inr ncol" "inverse_categorical df (Some s) c t = Inr t'"
    then show "?C t'"
      using inverse_categorical_binned [of df "Some s" c t t' dcol "[u0, u1]" ncol]
        col two ys codes
      by (auto simp: numeral_2_eq_2)
  next
    fix x t t'
    assume "x \<noteq> c" "?C t" "inverse_categorical df (Some s) x t = Inr t'"
    then show "?C t'"
      using inverse_categorical_other [of x c df "Some s" t t'] by simp
  qed
  \<comment> \<open>the second loop runs through, and does not touch the column\<close>
  have "\<exists>n2. for_each num (inverse_numerical E ns) n1 = Inr n2 \<and> ?P n2"
    using n1(2)
  proof (rule for_each_total)
    fix x t
    assume x: "x \<in> set num" and t: "?P t"
    with num(3) obtain q s' where "ns = Some (q, s')" by (cases ns) auto
    then show "\<exists>t'. inverse_numerical E ns x t = Inr t' \<and> ?P t'"
      using inverse_numerical_total [of x df t E q s'] x t num(1) by auto
  qed
  then obtain n2 where n2: "for_each num (inverse_numerical E ns) n1 = Inr n2" "?P n2"
    by auto
  have "getitem n2 c = getitem n1 c"
    using n2(1)
  proof (rule for_each_frame)
    fix x t t'
    assume "x \<in> set num" "inverse_numerical E ns x t = Inr t'"
    then show "getitem t' c = getitem t c"
      using num(2) inverse_numerical_other [of x c E ns t t'] by auto
  qed
  with C1 have C2: "?C n2" by simp
  \<comment> \<open>the third loop fails at the column, or before it with the same error\<close>
  have "for_each pre (remap_binary df) n2 = Inl IndexError \<or>
        (\<exists>n3. for_each pre (remap_binary df) n2 = Inr n3 \<and> (?P n3 \<and> ?C n3))"
  proof (rule for_each_total_or)
    show "?P n2 \<and> ?C n2" using n2(2) C2 by simp
  next
    fix x t
    assume x: "x \<in> set pre" and t: "?P t \<and> ?C t"
    then have xc: "x \<noteq> c" and "x \<in> set (columns df)" using pre cat(1) split by auto
    with t remap_binary_total_or [OF df, of x t]
    consider "remap_binary df x t = Inl IndexError"
      | t' where "remap_binary df x t = Inr t'" "?P t'" by auto
    then show "remap_binary df x t = Inl IndexError \<or>
        (\<exists>t'. remap_binary df x t = Inr t' \<and> (?P t' \<and> ?C t'))"
    proof cases
      case 1
      then show ?thesis by simp
    next
      case 2
      then show ?thesis
        using t xc remap_binary_other [of x c df t t'] by auto
    qed
  qed
  then have "for_each cat (remap_binary df) n2 = Inl IndexError"
  proof
    assume "for_each pre (remap_binary df) n2 = Inl IndexError"
    then show ?thesis unfolding split by (simp add: for_each_append)
  next
    assume "\<exists>n3. for_each pre (remap_binary df) n2 = Inr n3 \<and> (?P n3 \<and> ?C n3)"
    then obtain n3 col3 where n3: "for_each pre (remap_binary df) n2 = Inr n3"
      and g3: "getitem n3 c = Inr col3" "cells col3 = map (\<lambda>k. Num (real k)) codes"
      by auto
    have "remap_binary df c n3 = Inl IndexError"
      using col two g3 const by (rule remap_binary_constant)
    then show ?thesis unfolding split using n3 by (simp add: for_each_append)
  qed
  then show ?thesis
    using nd(1) n1(1) n2(1) by (simp add: generate_data_def)
qed

lemma data_transformation_InrE [consumes 1, case_names loops]:
  assumes "data_transformation E df num cat = Inr (X, cs, ns)"
  obtains sx1 sx2 where "for_each cat (scale_categorical df) (df, None) = Inr (sx1, cs)"
    and "for_each num (scale_numerical E (if nrows df > 99 then 100 else nrows df) df) (sx1, None)
           = Inr (sx2, ns)"
    and "X = np_array sx2"
  using assms unfolding data_transformation_def Let_def
  by (auto simp: bind_res_eq_Inr)

lemma scale_categorical_fitted:
  "scale_categorical df x st = Inr st' \<Longrightarrow> snd st' \<noteq> None"
  by (cases st) (auto simp: scale_categorical_def bind_res_eq_Inr)

lemma scale_numerical_fitted:
  "scale_numerical E n df x st = Inr st' \<Longrightarrow> snd st' \<noteq> None"
  by (cases st) (auto simp: scale_numerical_def bind_res_eq_Inr)

lemma for_each_fitted:
  assumes run: "for_each xs body st = Inr st'" and ne: "xs \<noteq> []"
    and step: "\<And>x t t'. body x t = Inr t' \<Longrightarrow> snd t' \<noteq> None"
  shows "snd st' \<noteq> None"
proof -
  from ne have "hd xs \<in> set xs" by simp
  with run show ?thesis
    by (rule for_each_post) (auto dest: step)
qed

lemma data_transformation_fitted:
  assumes "data_transformation E df num cat = Inr (X, cs, ns)"
  shows "(cat \<noteq> [] \<longrightarrow> cs \<noteq> None) \<and> (num \<noteq> [] \<longrightarrow> ns \<noteq> None)"
  using assms
proof (cases rule: data_transformation_InrE)
  case (loops sx1 sx2)
  show ?thesis
    using for_each_fitted [OF loops(1) _ scale_categorical_fitted]
      for_each_fitted [OF loops(2) _ scale_numerical_fitted]
    by auto
qed

lemma selector_include_distinct:
  "distinct (columns df) \<Longrightarrow> distinct (selector_include df)"
  by (simp add: selector_include_def columns_def distinct_map_filter)

lemma selector_subset:
  "set (selector_include df) \<subseteq> set (columns df)" "set (selector_exclude df) \<subseteq> set (columns df)"
  by (auto simp: selector_include_def selector_exclude_def columns_def)

lemma DataFrame_constant_row:
  "DataFrame [replicate (length cols) v] cols =
     Inr (map (\<lambda>j. \<lparr>cname = cols ! j, is_categorical = False, cells = [v]\<rparr>) [0..<length cols])"
  by (simp add: DataFrame_def)

lemma KBins_single:
  "KBinsDiscretizer_fit_transform 2 (map Num [y]) = Inr [0]"
  using check_array_map_Num [of "[y]"] by (simp add: KBinsDiscretizer_fit_transform_def)

lemma valid_df_ex: "valid_dataset df_ex"
  by code_simp

lemma columns_type_df_ex: "columns_type df_ex = ([''age''], [''sex''])"
  by code_simp

lemma dt_ex:
  "data_transformation E_ex df_ex [''age''] [''sex''] =
     Inr ([[Num (- 1), Num 1], [Num (- (1 / 2)), Num (- 1)], [Num 1, Num 1]], cs_ex, ns_ex)"
  by code_simp

lemma gd_ex_constant:
  "generate_data E_ex df_ex [[Num 0, Num 0]] [''sex''] [''age''] cs_ex ns_ex = Inl IndexError"
  by code_simp

text \<open>
  Claim C10.  Let \<open>df\<close> be a valid dataset, classified by \<^verbatim>\<open>columns_type\<close> and
  scaled by \<^verbatim>\<open>data_transformation\<close>, and let \<open>c\<close> be a categorical column of it
  with exactly two distinct values.  Then there is a synthetic matrix \<open>X\<close> whose
  column \<open>c\<close>, inverse-scaled and binned into two bins, is constant (a single bin code
  \<open>k\<close>), and on which \<^verbatim>\<open>generate_data\<close> raises \<^verbatim>\<open>IndexError\<close> instead of returning
  a frame: the remapping step asks for the second distinct value of the binned column.
  (The lemma \<open>generate_data_constant_bin\<close> above shows the same of every such matrix.)
\<close>

theorem generate_data_binary_constant:
  assumes valid: "valid_dataset df" and ct: "columns_type df = (num, cat)"
    and dt: "data_transformation E df num cat = Inr (scaled_X, cs, ns)"
    and c: "c \<in> set cat" and col: "getitem df c = Inr dcol"
    and two: "np_unique (cells dcol) = Inr [u0, u1]"
  shows "\<exists>X nd ncol ys codes k.
           DataFrame X (columns df) = Inr nd \<and> getitem nd c = Inr ncol \<and>
           MinMaxScaler_inverse_transform cs (cells ncol) = Inr ys \<and>
           KBinsDiscretizer_fit_transform 2 (map Num ys) = Inr codes \<and> set codes = {k} \<and>
           generate_data E df X cat num cs ns = Inl IndexError"
proof -
  from ct have num: "num = selector_exclude df" and cat: "cat = selector_include df"
    by (simp_all add: columns_type_lists)
  from valid have dist: "distinct (columns df)" and numeric: "list_all numeric_column df"
    by (simp_all add: valid_dataset_def list_all_iff)
  from c dt obtain s where cs: "cs = Some s"
    using data_transformation_fitted [of E df num cat scaled_X cs ns] by auto
  have fitted: "num = [] \<or> ns \<noteq> None"
    using dt data_transformation_fitted [of E df num cat scaled_X cs ns] by auto
  let ?X = "[replicate (length (columns df)) (Num 0)]"
  let ?nd = "map (\<lambda>j. \<lparr>cname = columns df ! j, is_categorical = False, cells = [Num 0]\<rparr>)
               [0..<length (columns df)]"
  have nd: "DataFrame ?X (columns df) = Inr ?nd" by (rule DataFrame_constant_row)
  have numeric_nd: "list_all numeric_column ?nd"
    by (simp add: list_all_iff numeric_column_def)
  have "c \<in> set (columns df)" using col by (rule getitem_in_columns)
  from getitem_DataFrame [OF nd this] obtain j where "j < length (columns df)"
    and g: "getitem ?nd c = Inr \<lparr>cname = c, is_categorical = False,
                               cells = map (\<lambda>row. row ! j) ?X\<rparr>"
    by auto
  then have ncol: "getitem ?nd c = Inr \<lparr>cname = c, is_categorical = False, cells = [Num 0]\<rparr>"
    by simp
  let ?y = "(0 - min_attr s) / scale_attr s"
  have ys: "MinMaxScaler_inverse_transform (Some s)
              (cells \<lparr>cname = c, is_categorical = False, cells = [Num 0]\<rparr>) = Inr [?y]"
    using check_array_map_Num [of "[0]"] by (simp add: MinMaxScaler_inverse_transform_def)
  have codes: "KBinsDiscretizer_fit_transform 2 (map Num [?y]) = Inr [0]"
    by (rule KBins_single)
  have "generate_data E df ?X cat num (Some s) ns = Inl IndexError"
  proof (rule generate_data_constant_bin [OF numeric _ c _ _ _ fitted nd numeric_nd col two ncol ys codes])
    show "set cat \<subseteq> set (columns df)" unfolding cat by (rule selector_subset)
    show "distinct cat" unfolding cat using dist by (rule selector_include_distinct)
    show "set num \<subseteq> set (columns df)" unfolding num by (rule selector_subset)
    show "c \<notin> set num" using c selectors_disjoint [OF dist] unfolding num cat by auto
    show "set [0::nat] = {0}" by simp
  qed
  with nd ncol ys codes show ?thesis
    unfolding cs by (intro exI [of _ ?X] exI [of _ ?nd] exI [of _ "[?y]"] exI [of _ "[0]"] exI [of _ 0]
        exI [of _ "\<lparr>cname = c, is_categorical = False, cells = [Num 0]\<rparr>"]) simp
qed

theorem generate_data_binary_constant_witness:
  "\<exists>X nd ncol ys codes k.
     DataFrame X (columns df_ex) = Inr nd \<and> getitem nd ''sex'' = Inr ncol \<and>
     MinMaxScaler_inverse_transform cs_ex (cells ncol) = Inr ys \<and>
     KBinsDiscretizer_fit_transform 2 (map Num ys) = Inr codes \<and> set codes = {k} \<and>
     generate_data E_ex df_ex X [''sex''] [''age''] cs_ex ns_ex = Inl IndexError"
proof (rule generate_data_binary_constant [OF valid_df_ex columns_type_df_ex dt_ex])
  show "''sex'' \<in> set [''sex'']" by simp
  show "getitem df_ex ''sex'' =
          Inr \<lparr>cname = ''sex'', is_categorical = True, cells = [Num 5, Num 3, Num 5]\<rparr>"
    by (simp add: getitem_def df_ex_def)
  show "np_unique (cells \<lparr>cname = ''sex'', is_categorical = True,
                          cells = [Num 5, Num 3, Num 5]\<rparr>) = Inr [Num 3, Num 5]"
    by (simp add: np_unique_def)
qed

section \<open>Binning is invariant under the scalers\<close>











lemma np_array_length_rows:
  "list_all (\<lambda>row. length row = length sx) (np_array sx)"
  by (simp add: np_array_def list_all_iff)


















section \<open>The round trip of the original data\<close>





























end
